theory Spec2Isabelle
  imports Main
begin

section \<open>Data model of the vault review plugin\<close>

text \<open>
  The TypeScript source declares
  \<^verbatim>\<open>FileStatus = "new" | "to_review" | "reviewed" | "deleted"\<close> and
  \<^verbatim>\<open>SnapshotFileStatus = Exclude<FileStatus, "new">\<close>. The stored subset is a datatype of
  its own and the derived status wraps it.
\<close>

datatype SnapshotFileStatus = ToReview | Reviewed | Deleted

datatype FileStatus = New | Stored SnapshotFileStatus

record File =
  path :: string
  status :: SnapshotFileStatus

record Snapshot =
  files :: "File list"
  createdAt :: int

record Settings =
  showStatusBar :: bool

record VaultReviewSettings =
  snapshot :: "Snapshot option"
  settings :: Settings

text \<open>
  Objects of the host application. Of a \<^verbatim>\<open>TFile\<close> the plugin reads \<^verbatim>\<open>path\<close> and
  \<^verbatim>\<open>extension\<close>; of a \<^verbatim>\<open>TAbstractFile\<close> it reads \<^verbatim>\<open>path\<close> and tests
  \<^verbatim>\<open>instanceof TFolder\<close>.
\<close>

record TFile =
  tpath :: string
  extension :: string

datatype TAbstractFile = IsFile TFile | IsFolder string

text \<open>
  What the host answers when the plugin calls it: \<^verbatim>\<open>app.workspace.getActiveFile()\<close>,
  \<^verbatim>\<open>app.vault.getMarkdownFiles()\<close>, \<^verbatim>\<open>app.vault.getFileByPath(p)\<close>, \<^verbatim>\<open>new Date()\<close>, the
  draw behind \<^verbatim>\<open>Math.floor(Math.random() * n)\<close>, and the button the user presses in the
  confirmation modal.
\<close>

record Host =
  workspace_activeFile :: "TFile option"
  vault_markdownFiles :: "TFile list"
  vault_fileByPath :: "string \<Rightarrow> TFile option"
  clock :: int
  randomDraw :: "nat \<Rightarrow> nat"
  userConfirms :: bool

text \<open>
  The plugin object: \<^verbatim>\<open>this.settings\<close>, the document last handed to \<^verbatim>\<open>saveData\<close>, the
  notices shown so far (oldest first) and the paths of the files opened in a leaf. The
  status bar is repainted from \<^verbatim>\<open>this.settings\<close> and the active file and holds no ledger
  data, so \<^verbatim>\<open>statusBar.update()\<close> does not appear in the state.
\<close>

record Plugin =
  this_settings :: VaultReviewSettings
  savedData :: "VaultReviewSettings option"
  notices :: "string list"
  openedFiles :: "string list"

datatype DeleteSnapshotResult = Deleted_result | Cancelled_result

datatype Button = DeleteSnapshot_button | AddAllNewFiles_button | CreateSnapshot_button

section \<open>Helpers for effects\<close>

definition toFile :: "string \<Rightarrow> SnapshotFileStatus \<Rightarrow> File" where
  "toFile p st = \<lparr>path = p, status = st\<rparr>"

definition DEFAULT_SETTINGS :: VaultReviewSettings where
  "DEFAULT_SETTINGS = \<lparr>snapshot = None, settings = \<lparr>showStatusBar = True\<rparr>\<rparr>"

definition saveSettings :: "Plugin \<Rightarrow> Plugin" where
  "saveSettings s = s\<lparr>savedData := Some (this_settings s)\<rparr>"

definition Notice :: "string \<Rightarrow> Plugin \<Rightarrow> Plugin" where
  "Notice msg s = s\<lparr>notices := notices s @ [msg]\<rparr>"

text \<open>
  \<^verbatim>\<open>this.settings.snapshot?.files\<close> read with the optional chain: the empty list stands
  for \<^verbatim>\<open>undefined\<close> only where the source itself falls back to \<^verbatim>\<open>[]\<close>.
\<close>

definition snapshot_files :: "Plugin \<Rightarrow> File list" where
  "snapshot_files s =
     (case snapshot (this_settings s) of None \<Rightarrow> [] | Some sn \<Rightarrow> files sn)"

text \<open>
  An update of the record array through the optional chain
  (\<^verbatim>\<open>this.settings.snapshot?.files.push(...)\<close>, an assignment to a field of a record found
  in it, \<^verbatim>\<open>snapshot.files = ...\<close> under \<^verbatim>\<open>if (this.settings.snapshot)\<close>): nothing happens
  when there is no snapshot.
\<close>

definition update_files :: "(File list \<Rightarrow> File list) \<Rightarrow> Plugin \<Rightarrow> Plugin" where
  "update_files g s =
     (case snapshot (this_settings s) of
        None \<Rightarrow> s
      | Some sn \<Rightarrow>
          s\<lparr>this_settings := (this_settings s)\<lparr>snapshot := Some (sn\<lparr>files := g (files sn)\<rparr>)\<rparr>\<rparr>)"

text \<open>
  \<^verbatim>\<open>Array.prototype.find\<close> returns a reference to the first element that satisfies the
  predicate, and the handlers assign to fields of that reference. The reference is
  modelled by the position of the element.
\<close>

fun findIndex :: "('a \<Rightarrow> bool) \<Rightarrow> 'a list \<Rightarrow> nat option" where
  "findIndex P [] = None"
| "findIndex P (x # xs) = (if P x then Some 0 else map_option Suc (findIndex P xs))"

section \<open>Queries\<close>

definition getActiveFile :: "Host \<Rightarrow> TFile option" where
  "getActiveFile h =
     (case workspace_activeFile h of
        None \<Rightarrow> None
      | Some f \<Rightarrow> if extension f \<noteq> ''md'' then None else Some f)"

text \<open>
  \<^verbatim>\<open>getSnapshotFile(path?)\<close>: the path defaults to the active file's; \<^verbatim>\<open>if (!path) return\<close>
  leaves with \<^verbatim>\<open>undefined\<close> for a missing path and for the empty string, which is falsy.
  The result is the position of the first record with that path.
\<close>

definition getSnapshotFile :: "Host \<Rightarrow> string option \<Rightarrow> Plugin \<Rightarrow> nat option" where
  "getSnapshotFile h arg s =
     (let p = (case arg of Some q \<Rightarrow> Some q | None \<Rightarrow> map_option tpath (getActiveFile h))
      in case p of
           None \<Rightarrow> None
         | Some q \<Rightarrow>
             if q = [] then None
             else (case snapshot (this_settings s) of
                     None \<Rightarrow> None
                   | Some sn \<Rightarrow> findIndex (\<lambda>f. path f = q) (files sn)))"

text \<open>
  \<^verbatim>\<open>getActiveFileStatus\<close>: \<^verbatim>\<open>undefined\<close> without an active Markdown file, otherwise
  \<^verbatim>\<open>getSnapshotFile(activeFile.path)?.status ?? "new"\<close>. The second component is the plugin
  after the call.
\<close>

definition getActiveFileStatus :: "Host \<Rightarrow> Plugin \<Rightarrow> FileStatus option \<times> Plugin" where
  "getActiveFileStatus h s =
     (case getActiveFile h of
        None \<Rightarrow> (None, s)
      | Some activeFile \<Rightarrow>
          (case getSnapshotFile h (Some (tpath activeFile)) s of
             None \<Rightarrow> (Some New, s)
           | Some i \<Rightarrow> (Some (Stored (status (snapshot_files s ! i))), s)))"

definition getToReviewFiles :: "Plugin \<Rightarrow> File list" where
  "getToReviewFiles s = filter (\<lambda>file. status file = ToReview) (snapshot_files s)"

section \<open>Opening a random file that is still to review\<close>

definition focusFile :: "Host \<Rightarrow> File \<Rightarrow> bool \<Rightarrow> Plugin \<Rightarrow> Plugin" where
  "focusFile h file newLeaf s =
     (case vault_fileByPath h (path file) of
        Some targetFile \<Rightarrow> s\<lparr>openedFiles := openedFiles s @ [tpath targetFile]\<rparr>
      | None \<Rightarrow>
          (let s1 = Notice (''Cannot find a file '' @ path file) s
           in case snapshot (this_settings s1) of
                None \<Rightarrow> s1
              | Some sn \<Rightarrow>
                  saveSettings (update_files (filter (\<lambda>fp. path fp \<noteq> path file)) s1)))"

text \<open>
  The value of the local \<^verbatim>\<open>randomFile\<close> of \<^verbatim>\<open>openRandomFile\<close> when control reaches its
  declaration, \<open>None\<close> when the function has returned before. \<^verbatim>\<open>Math.random()\<close> lies in
  \<open>[0, 1)\<close>, so the floor of its product with \<open>n\<close> is an index below \<open>n\<close>: the host's draw
  is reduced modulo \<open>n\<close>.
\<close>

definition randomFile :: "Host \<Rightarrow> Plugin \<Rightarrow> File option" where
  "randomFile h s =
     (case snapshot (this_settings s) of
        None \<Rightarrow> None
      | Some sn \<Rightarrow>
          (let fs = getToReviewFiles s
           in if length fs = 0 then None
              else Some (fs ! (randomDraw h (length fs) mod length fs))))"

definition openRandomFile :: "Host \<Rightarrow> Plugin \<Rightarrow> Plugin" where
  "openRandomFile h s =
     (case snapshot (this_settings s) of
        None \<Rightarrow> Notice ''Vault review snapshot is not created'' s
      | Some sn \<Rightarrow>
          (let fs = getToReviewFiles s
           in if length fs = 0 then Notice ''All files are reviewed'' s
              else focusFile h (fs ! (randomDraw h (length fs) mod length fs)) False s))"

section \<open>Review and unreview\<close>

text \<open>
  \<^verbatim>\<open>file ?? this.getActiveFile()\<close>; only the \<^verbatim>\<open>path\<close> of the result is read afterwards.
\<close>

definition targetPath :: "Host \<Rightarrow> File option \<Rightarrow> string option" where
  "targetPath h file =
     (case file of Some f \<Rightarrow> Some (path f) | None \<Rightarrow> map_option tpath (getActiveFile h))"

definition completeReview :: "Host \<Rightarrow> File option \<Rightarrow> bool \<Rightarrow> Plugin \<Rightarrow> Plugin" where
  "completeReview h file openNext s =
     (case targetPath h file of
        None \<Rightarrow> s
      | Some p \<Rightarrow>
          (let s1 = (case getSnapshotFile h (Some p) s of
                       None \<Rightarrow>
                         update_files (\<lambda>fs. fs @ [toFile p Reviewed])
                           (Notice ''File was added to snapshot and marked as reviewed'' s)
                     | Some i \<Rightarrow> update_files (\<lambda>fs. fs[i := (fs ! i)\<lparr>status := Reviewed\<rparr>]) s);
               s2 = (if openNext then openRandomFile h s1 else s1)
           in saveSettings s2))"

definition unreviewFile :: "Host \<Rightarrow> File option \<Rightarrow> Plugin \<Rightarrow> Plugin" where
  "unreviewFile h file s =
     (case targetPath h file of
        None \<Rightarrow> s
      | Some p \<Rightarrow>
          (let s1 = (case getSnapshotFile h (Some p) s of
                       None \<Rightarrow>
                         update_files (\<lambda>fs. fs @ [toFile p ToReview])
                           (Notice ''File was added to snapshot and marked as not reviewed'' s)
                     | Some i \<Rightarrow> update_files (\<lambda>fs. fs[i := (fs ! i)\<lparr>status := ToReview\<rparr>]) s)
           in saveSettings s1))"

section \<open>Reconciliation with the vault\<close>

definition handleFileRename :: "Host \<Rightarrow> TAbstractFile \<Rightarrow> string \<Rightarrow> Plugin \<Rightarrow> Plugin" where
  "handleFileRename h file oldPath s =
     (case file of
        IsFolder _ \<Rightarrow> s
      | IsFile t \<Rightarrow>
          (case getSnapshotFile h (Some oldPath) s of
             None \<Rightarrow> s
           | Some i \<Rightarrow>
               saveSettings (update_files (\<lambda>fs. fs[i := (fs ! i)\<lparr>path := tpath t\<rparr>]) s)))"

definition handleFileDelete :: "Host \<Rightarrow> TAbstractFile \<Rightarrow> Plugin \<Rightarrow> Plugin" where
  "handleFileDelete h file s =
     (case file of
        IsFolder _ \<Rightarrow> s
      | IsFile t \<Rightarrow>
          (case snapshot (this_settings s) of
             None \<Rightarrow> s
           | Some sn \<Rightarrow>
               (case getSnapshotFile h (Some (tpath t)) s of
                  None \<Rightarrow> s
                | Some i \<Rightarrow>
                    saveSettings
                      (update_files (\<lambda>fs. fs[i := (fs ! i)\<lparr>status := Deleted\<rparr>]) s))))"

section \<open>Snapshot lifecycle: the settings tab\<close>

text \<open>
  \<^verbatim>\<open>deleteSnapshot\<close>: with confirmation the modal calls \<^verbatim>\<open>onDelete\<close> or \<^verbatim>\<open>onCancel\<close>
  according to the button pressed; without, \<^verbatim>\<open>onDelete\<close> runs at once.
\<close>

definition deleteSnapshot :: "Host \<Rightarrow> bool \<Rightarrow> Plugin \<Rightarrow> DeleteSnapshotResult \<times> Plugin" where
  "deleteSnapshot h askForConfirmation s =
     (if askForConfirmation \<and> \<not> userConfirms h then (Cancelled_result, s)
      else (Deleted_result,
            saveSettings (s\<lparr>this_settings := (this_settings s)\<lparr>snapshot := None\<rparr>\<rparr>)))"

text \<open>
  \<^verbatim>\<open>VaultReviewSettingTab.display\<close> adds the delete and the add-new-files buttons when a
  snapshot exists and the create button otherwise.
\<close>

definition display :: "Plugin \<Rightarrow> Button list" where
  "display s =
     (case snapshot (this_settings s) of
        Some sn \<Rightarrow> [DeleteSnapshot_button, AddAllNewFiles_button]
      | None \<Rightarrow> [CreateSnapshot_button])"

text \<open>
  The \<^verbatim>\<open>onClick\<close> handler of the button "Add all new files to snapshot". Without a snapshot the optional
  chain makes \<^verbatim>\<open>some\<close> undefined, every file passes the filter and \<^verbatim>\<open>push\<close> is skipped.
\<close>

definition onClick_addAllNewFiles :: "Host \<Rightarrow> Plugin \<Rightarrow> Plugin" where
  "onClick_addAllNewFiles h s =
     (let vaultFiles =
            map (\<lambda>file. toFile (tpath file) ToReview)
              (filter (\<lambda>file. \<not> list_ex (\<lambda>f. path f = tpath file) (snapshot_files s))
                 (vault_markdownFiles h))
      in saveSettings (update_files (\<lambda>fs. fs @ vaultFiles) s))"

text \<open>
  The \<^verbatim>\<open>onClick\<close> handler of the button "Create snapshot". The handler itself does not
  look at \<^verbatim>\<open>this.settings.snapshot\<close>; it assigns a fresh snapshot. The button it belongs to
  is the one \<open>display\<close> rendered, and \<^verbatim>\<open>onExternalSettingsChange\<close> reloads the settings
  without rendering the tab again.
\<close>

definition onClick_createSnapshot :: "Host \<Rightarrow> Plugin \<Rightarrow> Plugin" where
  "onClick_createSnapshot h s =
     (let fs = map (\<lambda>file. toFile (tpath file) ToReview) (vault_markdownFiles h)
      in saveSettings
           (s\<lparr>this_settings :=
                (this_settings s)\<lparr>snapshot := Some \<lparr>files = fs, createdAt = clock h\<rparr>\<rparr>\<rparr>))"

section \<open>Concrete hosts and ledgers\<close>

text \<open>
  A vault with the Markdown files \<open>a.md\<close> and \<open>b.md\<close>, the first of them active, and a
  plugin that holds the default settings or a snapshot with given records.
\<close>

definition host0 :: Host where
  "host0 = \<lparr>workspace_activeFile = Some \<lparr>tpath = ''a.md'', extension = ''md''\<rparr>,
            vault_markdownFiles = [\<lparr>tpath = ''a.md'', extension = ''md''\<rparr>,
                                   \<lparr>tpath = ''b.md'', extension = ''md''\<rparr>],
            vault_fileByPath = (\<lambda>p. if p = ''a.md'' \<or> p = ''b.md''
                                     then Some \<lparr>tpath = p, extension = ''md''\<rparr> else None),
            clock = 1700000000000,
            randomDraw = (\<lambda>n. 0),
            userConfirms = True\<rparr>"

definition plugin0 :: Plugin where
  "plugin0 = \<lparr>this_settings = DEFAULT_SETTINGS, savedData = None, notices = [], openedFiles = []\<rparr>"

definition withFiles :: "File list \<Rightarrow> Plugin" where
  "withFiles fs = \<lparr>this_settings = \<lparr>snapshot = Some \<lparr>files = fs, createdAt = 0\<rparr>,
                                     settings = \<lparr>showStatusBar = True\<rparr>\<rparr>,
                   savedData = None, notices = [], openedFiles = []\<rparr>"

section \<open>Facts about the helpers\<close>

lemma findIndex_None_iff: "findIndex P xs = None \<longleftrightarrow> (\<forall>x \<in> set xs. \<not> P x)"
  by (induction xs) auto

lemma findIndex_Some_less: "findIndex P xs = Some i \<Longrightarrow> i < length xs"
  by (induction xs arbitrary: i) (auto split: if_splits)

lemma findIndex_Some_holds: "findIndex P xs = Some i \<Longrightarrow> P (xs ! i)"
  by (induction xs arbitrary: i) (auto split: if_splits)

lemma findIndex_Some_first: "findIndex P xs = Some i \<Longrightarrow> j < i \<Longrightarrow> \<not> P (xs ! j)"
proof (induction xs arbitrary: i j)
  case Nil
  then show ?case by simp
next
  case (Cons x xs)
  show ?case
  proof (cases "P x")
    case True
    with Cons.prems show ?thesis by simp
  next
    case False
    with Cons.prems obtain k where k: "findIndex P xs = Some k" "i = Suc k"
      by auto
    show ?thesis
    proof (cases j)
      case 0
      with False show ?thesis by simp
    next
      case (Suc j')
      with Cons.prems(2) k(2) have "j' < k" by simp
      with Cons.IH [OF k(1)] Suc show ?thesis by simp
    qed
  qed
qed

lemma findIndex_find: "map_option ((!) xs) (findIndex P xs) = List.find P xs"
  by (induction xs) (auto simp: option.map_comp comp_def)

lemma this_settings_Notice: "this_settings (Notice m s) = this_settings s"
  by (simp add: Notice_def)

lemma this_settings_saveSettings: "this_settings (saveSettings s) = this_settings s"
  by (simp add: saveSettings_def)

lemma update_files_None: "snapshot (this_settings s) = None \<Longrightarrow> update_files g s = s"
  by (simp add: update_files_def)

lemma update_files_Some:
  "snapshot (this_settings s) = Some sn \<Longrightarrow>
   update_files g s =
     s\<lparr>this_settings := (this_settings s)\<lparr>snapshot := Some (sn\<lparr>files := g (files sn)\<rparr>)\<rparr>\<rparr>"
  by (simp add: update_files_def)

lemma snapshot_files_Some: "snapshot (this_settings s) = Some sn \<Longrightarrow> snapshot_files s = files sn"
  by (simp add: snapshot_files_def)

lemma snapshot_files_None: "snapshot (this_settings s) = None \<Longrightarrow> snapshot_files s = []"
  by (simp add: snapshot_files_def)

lemma getSnapshotFile_path:
  "getSnapshotFile h (Some q) s =
     (if q = [] then None else findIndex (\<lambda>f. path f = q) (snapshot_files s))"
  by (simp add: getSnapshotFile_def snapshot_files_def split: option.splits)

lemma getSnapshotFile_no_snapshot:
  "snapshot (this_settings s) = None \<Longrightarrow> getSnapshotFile h arg s = None"
  by (simp add: getSnapshotFile_def split: option.splits)

lemma findIndex_first:
  assumes "\<exists>x \<in> set xs. P x"
  shows "\<exists>i. findIndex P xs = Some i \<and> i < length xs \<and> P (xs ! i) \<and> (\<forall>j<i. \<not> P (xs ! j))"
proof -
  from assms have "findIndex P xs \<noteq> None"
    by (simp add: findIndex_None_iff)
  then obtain i where i: "findIndex P xs = Some i"
    by blast
  with findIndex_Some_less [OF i] findIndex_Some_holds [OF i] findIndex_Some_first [OF i]
  show ?thesis by blast
qed

lemma saveSettings_update_files:
  "snapshot (this_settings s) = Some sn \<Longrightarrow>
   saveSettings (update_files g s) =
     s\<lparr>this_settings := (this_settings s)\<lparr>snapshot := Some (sn\<lparr>files := g (files sn)\<rparr>)\<rparr>,
       savedData := Some ((this_settings s)\<lparr>snapshot := Some (sn\<lparr>files := g (files sn)\<rparr>)\<rparr>)\<rparr>"
  by (simp add: saveSettings_def update_files_def)

lemma renamed_path_gone:
  assumes d: "distinct (map path xs)" and i: "i < length xs" and o: "path (xs ! i) = old"
    and n: "new \<noteq> old"
  shows "\<forall>f \<in> set (xs[i := (xs ! i)\<lparr>path := new\<rparr>]). path f \<noteq> old"
proof
  fix f
  assume "f \<in> set (xs[i := (xs ! i)\<lparr>path := new\<rparr>])"
  then obtain k where k: "k < length xs" "f = xs[i := (xs ! i)\<lparr>path := new\<rparr>] ! k"
    by (auto simp: in_set_conv_nth)
  show "path f \<noteq> old"
  proof (cases "k = i")
    case True
    with k i n show ?thesis by simp
  next
    case False
    with k have f: "f = xs ! k" by simp
    from d have "\<forall>a<length (map path xs). \<forall>b<length (map path xs).
        a \<noteq> b \<longrightarrow> map path xs ! a \<noteq> map path xs ! b"
      by (simp only: distinct_conv_nth)
    with k(1) i False have "map path xs ! k \<noteq> map path xs ! i"
      by simp
    with k(1) i o f show ?thesis by simp
  qed
qed

lemma findIndex_cong_map: "map P xs = map P ys \<Longrightarrow> findIndex P xs = findIndex P ys"
proof (induction xs arbitrary: ys)
  case Nil
  then show ?case by simp
next
  case (Cons x xs)
  then obtain y ys' where ys: "ys = y # ys'"
    by (cases ys) auto
  with Cons.prems have "P x = P y" "map P xs = map P ys'"
    by simp_all
  with Cons.IH [of ys'] ys show ?case by simp
qed

lemma findIndex_set_status:
  "findIndex (\<lambda>f. path f = p) (fs[i := (fs ! i)\<lparr>status := st\<rparr>]) = findIndex (\<lambda>f. path f = p) fs"
proof (rule findIndex_cong_map)
  show "map (\<lambda>f. path f = p) (fs[i := (fs ! i)\<lparr>status := st\<rparr>]) = map (\<lambda>f. path f = p) fs"
  proof (cases "i < length fs")
    case True
    then show ?thesis
      by (simp add: map_update list_update_same_conv)
  next
    case False
    then have "fs[i := (fs ! i)\<lparr>status := st\<rparr>] = fs"
      by (simp add: list_update_beyond)
    then show ?thesis
      by (simp only:)
  qed
qed

lemma findIndex_append_new:
  "\<forall>x \<in> set xs. \<not> P x \<Longrightarrow> P y \<Longrightarrow> findIndex P (xs @ [y]) = Some (length xs)"
  by (induction xs) auto

lemma unique_path_index:
  assumes d: "distinct (map path xs)" and i: "i < length xs" and f: "f \<in> set xs"
    and e: "path f = path (xs ! i)"
  shows "f = xs ! i"
proof -
  from f obtain k where k: "k < length xs" "f = xs ! k"
    by (auto simp: in_set_conv_nth)
  from d have "\<forall>a<length (map path xs). \<forall>b<length (map path xs).
      a \<noteq> b \<longrightarrow> map path xs ! a \<noteq> map path xs ! b"
    by (simp only: distinct_conv_nth)
  with k i e have "k = i"
    by auto
  with k show ?thesis by simp
qed

lemma completeReview_found:
  assumes tp: "targetPath h file = Some p" and ne: "p \<noteq> []"
    and sn: "snapshot (this_settings s) = Some sn"
    and i: "findIndex (\<lambda>f. path f = p) (files sn) = Some i"
  shows "completeReview h file False s =
     s\<lparr>this_settings := (this_settings s)
          \<lparr>snapshot := Some (sn\<lparr>files := (files sn)[i := (files sn ! i)\<lparr>status := Reviewed\<rparr>]\<rparr>)\<rparr>,
       savedData := Some ((this_settings s)
          \<lparr>snapshot := Some (sn\<lparr>files := (files sn)[i := (files sn ! i)\<lparr>status := Reviewed\<rparr>]\<rparr>)\<rparr>)\<rparr>"
proof -
  have "getSnapshotFile h (Some p) s = Some i"
    using ne i sn by (simp add: getSnapshotFile_path snapshot_files_Some)
  then have "completeReview h file False s =
      saveSettings (update_files (\<lambda>fs. fs[i := (fs ! i)\<lparr>status := Reviewed\<rparr>]) s)"
    using tp by (simp add: completeReview_def)
  with saveSettings_update_files [OF sn] show ?thesis
    by simp
qed

lemma completeReview_absent:
  assumes tp: "targetPath h file = Some p"
    and sn: "snapshot (this_settings s) = Some sn"
    and i: "p = [] \<or> findIndex (\<lambda>f. path f = p) (files sn) = None"
  shows "completeReview h file False s =
     s\<lparr>this_settings := (this_settings s)
          \<lparr>snapshot := Some (sn\<lparr>files := files sn @ [toFile p Reviewed]\<rparr>)\<rparr>,
       savedData := Some ((this_settings s)
          \<lparr>snapshot := Some (sn\<lparr>files := files sn @ [toFile p Reviewed]\<rparr>)\<rparr>),
       notices := notices s @ [''File was added to snapshot and marked as reviewed'']\<rparr>"
proof -
  have "getSnapshotFile h (Some p) s = None"
    using i sn by (auto simp: getSnapshotFile_path snapshot_files_Some)
  then show ?thesis
    using tp sn
    by (simp add: completeReview_def update_files_def Notice_def saveSettings_def)
qed

lemma getToReviewFiles_status: "f \<in> set (getToReviewFiles s) \<Longrightarrow> status f = ToReview \<and> f \<in> set (snapshot_files s)"
  by (simp add: getToReviewFiles_def)

lemma onClick_addAllNewFiles_Some:
  assumes sn: "snapshot (this_settings s) = Some sn"
  shows "onClick_addAllNewFiles h s =
     s\<lparr>this_settings := (this_settings s)
          \<lparr>snapshot := Some (sn\<lparr>files := files sn @
              map (\<lambda>file. toFile (tpath file) ToReview)
                (filter (\<lambda>file. tpath file \<notin> path ` set (files sn)) (vault_markdownFiles h))\<rparr>)\<rparr>,
       savedData := Some ((this_settings s)
          \<lparr>snapshot := Some (sn\<lparr>files := files sn @
              map (\<lambda>file. toFile (tpath file) ToReview)
                (filter (\<lambda>file. tpath file \<notin> path ` set (files sn)) (vault_markdownFiles h))\<rparr>)\<rparr>)\<rparr>"
proof -
  have "filter (\<lambda>file. \<not> list_ex (\<lambda>f. path f = tpath file) (snapshot_files s))
          (vault_markdownFiles h) =
        filter (\<lambda>file. tpath file \<notin> path ` set (files sn)) (vault_markdownFiles h)"
    using sn by (intro filter_cong) (auto simp: list_ex_iff snapshot_files_Some image_iff)
  then show ?thesis
    by (simp add: onClick_addAllNewFiles_def Let_def saveSettings_update_files [OF sn])
qed

lemma no_new_files_left:
  "filter (\<lambda>file. tpath file \<notin> path ` set (fs @
      map (\<lambda>file. toFile (tpath file) ToReview)
        (filter (\<lambda>file. tpath file \<notin> path ` set fs) md))) md = []"
proof -
  let ?added = "map (\<lambda>file. toFile (tpath file) ToReview)
      (filter (\<lambda>file. tpath file \<notin> path ` set fs) md)"
  have "tpath x \<in> path ` set (fs @ ?added)" if x: "x \<in> set md" for x
  proof (cases "tpath x \<in> path ` set fs")
    case True
    then show ?thesis
      by auto
  next
    case False
    with x have "toFile (tpath x) ToReview \<in> set ?added"
      by auto
    then have "path (toFile (tpath x) ToReview) \<in> path ` set (fs @ ?added)"
      by (intro imageI) simp
    then show ?thesis
      by (simp add: toFile_def)
  qed
  then show ?thesis
    by (simp add: filter_empty_conv)
qed

lemma renamed_paths_distinct:
  assumes d: "distinct (map path xs)" and i: "i < length xs"
    and n: "\<forall>f \<in> set xs. path f \<noteq> new"
  shows "distinct (map path (xs[i := (xs ! i)\<lparr>path := new\<rparr>]))"
proof -
  have "map path (xs[i := (xs ! i)\<lparr>path := new\<rparr>]) = (map path xs)[i := new]"
    by (simp add: map_update)
  moreover from n have "new \<notin> set (map path xs)"
    by auto
  then have "new \<notin> set (map path xs) - {map path xs ! i}"
    by simp
  with d have "distinct ((map path xs)[i := new])"
    by (rule distinct_list_update)
  ultimately show ?thesis
    by simp
qed

lemma snapshot_files_update_files:
  "snapshot_files (update_files g s) =
     (case snapshot (this_settings s) of None \<Rightarrow> [] | Some sn \<Rightarrow> g (files sn))"
  by (simp add: snapshot_files_def update_files_def split: option.splits)

lemma snapshot_files_saveSettings: "snapshot_files (saveSettings s) = snapshot_files s"
  by (simp add: snapshot_files_def saveSettings_def)

lemma snapshot_files_Notice: "snapshot_files (Notice m s) = snapshot_files s"
  by (simp add: snapshot_files_def Notice_def)

lemma paths_set_status: "map path (fs[i := (fs ! i)\<lparr>status := st\<rparr>]) = map path fs"
proof (cases "i < length fs")
  case True
  then show ?thesis
    by (simp add: map_update list_update_same_conv)
next
  case False
  then have "fs[i := (fs ! i)\<lparr>status := st\<rparr>] = fs"
    by (simp add: list_update_beyond)
  then show ?thesis
    by (simp only:)
qed

lemma distinct_update_files:
  assumes "distinct (map path (g (snapshot_files s)))"
  shows "distinct (map path (snapshot_files (update_files g s)))"
  using assms
  by (cases "snapshot (this_settings s)") (simp_all add: snapshot_files_def update_files_def)

lemma focusFile_keeps_distinct:
  assumes d: "distinct (map path (snapshot_files s))"
  shows "distinct (map path (snapshot_files (focusFile h f newLeaf s)))"
proof (cases "vault_fileByPath h (path f)")
  case None
  have "distinct (map path (snapshot_files
      (update_files (filter (\<lambda>fp. path fp \<noteq> path f)) (Notice (''Cannot find a file '' @ path f) s))))"
    by (rule distinct_update_files) (simp add: snapshot_files_Notice distinct_map_filter d)
  with None d show ?thesis
    by (simp add: focusFile_def Let_def snapshot_files_saveSettings snapshot_files_Notice
        split: option.splits)
next
  case (Some t)
  with d show ?thesis
    by (simp add: focusFile_def snapshot_files_def)
qed

lemma openRandomFile_keeps_distinct:
  assumes d: "distinct (map path (snapshot_files s))"
  shows "distinct (map path (snapshot_files (openRandomFile h s)))"
  using d focusFile_keeps_distinct [OF d]
  by (simp add: openRandomFile_def Let_def snapshot_files_Notice split: option.splits)

lemma set_status_or_push_keeps_distinct:
  assumes d: "distinct (map path (snapshot_files s))" and ne: "p \<noteq> []"
  shows "distinct (map path (snapshot_files
     (case getSnapshotFile h (Some p) s of
        None \<Rightarrow> update_files (\<lambda>fs. fs @ [toFile p st]) (Notice m s)
      | Some i \<Rightarrow> update_files (\<lambda>fs. fs[i := (fs ! i)\<lparr>status := st\<rparr>]) s)))"
proof (cases "getSnapshotFile h (Some p) s")
  case None
  with ne have "findIndex (\<lambda>f. path f = p) (snapshot_files s) = None"
    by (simp add: getSnapshotFile_path)
  then have fresh: "p \<notin> path ` set (snapshot_files s)"
    by (auto simp: findIndex_None_iff)
  have "distinct (map path (snapshot_files (update_files (\<lambda>fs. fs @ [toFile p st]) (Notice m s))))"
  proof (rule distinct_update_files)
    from d fresh show "distinct (map path (snapshot_files (Notice m s) @ [toFile p st]))"
      by (simp add: snapshot_files_Notice toFile_def)
  qed
  with None show ?thesis
    by simp
next
  case (Some i)
  have "distinct (map path (snapshot_files
      (update_files (\<lambda>fs. fs[i := (fs ! i)\<lparr>status := st\<rparr>]) s)))"
    by (rule distinct_update_files) (simp add: paths_set_status d)
  with Some show ?thesis
    by simp
qed

text \<open>
  Every writer of the record array other than \<open>handleFileRename\<close> keeps the record paths
  pairwise distinct: review and unreview of a non-empty path (also when the next random
  file is opened), delete reconciliation, eviction, and, for a vault whose Markdown files
  have pairwise distinct paths, the handlers that add new files and create the snapshot.
\<close>

lemma other_writers_keep_paths_distinct:
  assumes d: "distinct (map path (snapshot_files s))"
  shows "targetPath h file \<noteq> Some [] \<Longrightarrow>
           distinct (map path (snapshot_files (completeReview h file openNext s)))"
    and "targetPath h file \<noteq> Some [] \<Longrightarrow>
           distinct (map path (snapshot_files (unreviewFile h file s)))"
    and "distinct (map path (snapshot_files (handleFileDelete h a s)))"
    and "distinct (map path (snapshot_files (focusFile h f newLeaf s)))"
    and "distinct (map tpath (vault_markdownFiles h)) \<Longrightarrow>
           distinct (map path (snapshot_files (onClick_addAllNewFiles h s)))"
    and "distinct (map tpath (vault_markdownFiles h)) \<Longrightarrow>
           distinct (map path (snapshot_files (onClick_createSnapshot h s)))"
proof -
  show "distinct (map path (snapshot_files (completeReview h file openNext s)))"
    if ne: "targetPath h file \<noteq> Some []"
  proof (cases "targetPath h file")
    case None
    with d show ?thesis
      by (simp add: completeReview_def)
  next
    case (Some p)
    with ne have p: "p \<noteq> []"
      by simp
    let ?s1 = "case getSnapshotFile h (Some p) s of
        None \<Rightarrow> update_files (\<lambda>fs. fs @ [toFile p Reviewed])
                  (Notice ''File was added to snapshot and marked as reviewed'' s)
      | Some i \<Rightarrow> update_files (\<lambda>fs. fs[i := (fs ! i)\<lparr>status := Reviewed\<rparr>]) s"
    have d1: "distinct (map path (snapshot_files ?s1))"
      using d p by (rule set_status_or_push_keeps_distinct)
    have "completeReview h file openNext s =
        saveSettings (if openNext then openRandomFile h ?s1 else ?s1)"
      using Some by (simp add: completeReview_def Let_def)
    with d1 openRandomFile_keeps_distinct [OF d1, of h] show ?thesis
      by (simp add: snapshot_files_saveSettings)
  qed
  show "distinct (map path (snapshot_files (unreviewFile h file s)))"
    if ne: "targetPath h file \<noteq> Some []"
  proof (cases "targetPath h file")
    case None
    with d show ?thesis
      by (simp add: unreviewFile_def)
  next
    case (Some p)
    with ne have p: "p \<noteq> []"
      by simp
    let ?s1 = "case getSnapshotFile h (Some p) s of
        None \<Rightarrow> update_files (\<lambda>fs. fs @ [toFile p ToReview])
                  (Notice ''File was added to snapshot and marked as not reviewed'' s)
      | Some i \<Rightarrow> update_files (\<lambda>fs. fs[i := (fs ! i)\<lparr>status := ToReview\<rparr>]) s"
    have d1: "distinct (map path (snapshot_files ?s1))"
      using d p by (rule set_status_or_push_keeps_distinct)
    have "unreviewFile h file s = saveSettings ?s1"
      using Some by (simp add: unreviewFile_def Let_def)
    with d1 show ?thesis
      by (simp add: snapshot_files_saveSettings)
  qed
  show "distinct (map path (snapshot_files (handleFileDelete h a s)))"
  proof -
    have "distinct (map path (snapshot_files
        (update_files (\<lambda>fs. fs[i := (fs ! i)\<lparr>status := Deleted\<rparr>]) s)))" for i
      by (rule distinct_update_files) (simp add: paths_set_status d)
    with d show ?thesis
      by (simp add: handleFileDelete_def snapshot_files_saveSettings
          split: TAbstractFile.splits option.splits)
  qed
  show "distinct (map path (snapshot_files (focusFile h f newLeaf s)))"
    using d by (rule focusFile_keeps_distinct)
  show "distinct (map path (snapshot_files (onClick_addAllNewFiles h s)))"
    if md: "distinct (map tpath (vault_markdownFiles h))"
  proof -
    let ?new = "filter (\<lambda>file. \<not> list_ex (\<lambda>f. path f = tpath file) (snapshot_files s))
        (vault_markdownFiles h)"
    let ?added = "map (\<lambda>file. toFile (tpath file) ToReview) ?new"
    have mp: "map path ?added = map tpath ?new"
      by (simp add: toFile_def comp_def)
    have dn: "distinct (map tpath ?new)"
      using md by (rule distinct_map_filter)
    have dis: "set (map path (snapshot_files s)) \<inter> set (map tpath ?new) = {}"
      by (auto simp: list_ex_iff)
    have "distinct (map path (snapshot_files (update_files (\<lambda>fs. fs @ ?added) s)))"
    proof (rule distinct_update_files)
      from d dn dis mp show "distinct (map path (snapshot_files s @ ?added))"
        by (simp only: map_append distinct_append)
    qed
    then show ?thesis
      by (simp add: onClick_addAllNewFiles_def Let_def snapshot_files_saveSettings)
  qed
  show "distinct (map path (snapshot_files (onClick_createSnapshot h s)))"
    if md: "distinct (map tpath (vault_markdownFiles h))"
    using md
    by (simp add: onClick_createSnapshot_def Let_def snapshot_files_def saveSettings_def
        toFile_def comp_def)
qed

section \<open>Review and unreview without a snapshot\<close>

text \<open>
  Claim C10. When no snapshot exists, \<open>completeReview\<close> (with or without opening the next
  file) and \<open>unreviewFile\<close> leave \<open>this.settings\<close> as it was: the snapshot stays absent
  and no record is created. This holds on the branch that shows the notice "File was added
  to snapshot ...", which is the branch taken for every target path: there the plugin
  after the call differs from the one before only by that notice and by the saved document,
  which is the unchanged ledger.
\<close>

theorem review_without_snapshot:
  assumes "snapshot (this_settings s) = None"
  shows "this_settings (completeReview h file openNext s) = this_settings s
       \<and> this_settings (unreviewFile h file s) = this_settings s
       \<and> (\<forall>p. targetPath h file = Some p \<longrightarrow>
            completeReview h file False s =
              s\<lparr>savedData := Some (this_settings s),
                notices := notices s @ [''File was added to snapshot and marked as reviewed'']\<rparr>
          \<and> unreviewFile h file s =
              s\<lparr>savedData := Some (this_settings s),
                notices := notices s @ [''File was added to snapshot and marked as not reviewed'']\<rparr>)"
proof -
  have n: "\<And>m. snapshot (this_settings (Notice m s)) = None"
    using assms by (simp add: this_settings_Notice)
  have g: "\<And>p. getSnapshotFile h (Some p) s = None"
    using assms by (rule getSnapshotFile_no_snapshot)
  have u: "\<And>g m. update_files g (Notice m s) = Notice m s"
    using n by (rule update_files_None)
  have o: "\<And>m. this_settings (openRandomFile h (Notice m s)) = this_settings s"
    using n by (simp add: openRandomFile_def this_settings_Notice)
  have 1: "this_settings (completeReview h file openNext s) = this_settings s"
    by (cases "targetPath h file")
      (simp_all add: completeReview_def Let_def g u o this_settings_saveSettings this_settings_Notice)
  have 2: "this_settings (unreviewFile h file s) = this_settings s"
    by (cases "targetPath h file")
      (simp_all add: unreviewFile_def Let_def g u this_settings_saveSettings this_settings_Notice)
  have 3: "\<forall>p. targetPath h file = Some p \<longrightarrow>
            completeReview h file False s =
              s\<lparr>savedData := Some (this_settings s),
                notices := notices s @ [''File was added to snapshot and marked as reviewed'']\<rparr>
          \<and> unreviewFile h file s =
              s\<lparr>savedData := Some (this_settings s),
                notices := notices s @ [''File was added to snapshot and marked as not reviewed'']\<rparr>"
    using assms
    by (simp add: completeReview_def unreviewFile_def Let_def g update_files_def saveSettings_def
        Notice_def)
  from 1 2 3 show ?thesis by blast
qed

theorem review_without_snapshot_witness:
  "snapshot (this_settings plugin0) = None
   \<and> this_settings (completeReview host0 None False plugin0) = DEFAULT_SETTINGS
   \<and> this_settings (unreviewFile host0 None plugin0) = DEFAULT_SETTINGS
   \<and> notices (completeReview host0 None False plugin0) =
       [''File was added to snapshot and marked as reviewed'']"
proof -
  have a: "snapshot (this_settings plugin0) = None"
    by (simp add: plugin0_def DEFAULT_SETTINGS_def)
  have t: "targetPath host0 None = Some ''a.md''"
    by (simp add: targetPath_def getActiveFile_def host0_def)
  have p: "this_settings plugin0 = DEFAULT_SETTINGS" "notices plugin0 = []"
    by (simp_all add: plugin0_def)
  from review_without_snapshot [OF a, of host0 None False] t p a show ?thesis
    by simp
qed

section \<open>Delete reconciliation\<close>

text \<open>
  Claim C3, amended. A delete notification leaves the plugin as it was when no snapshot
  exists, and when it is for a folder. For a file with a non-empty path \<open>p\<close> and a snapshot
  that holds a record with path \<open>p\<close>, the first such record gets the status \<open>deleted\<close>;
  it stays at its position, no record is removed or otherwise changed, and the ledger is
  saved. When no record has path \<open>p\<close> the plugin is unchanged.
\<close>

theorem handleFileDelete_marks:
  "(snapshot (this_settings s) = None \<longrightarrow> handleFileDelete h file s = s)
   \<and> handleFileDelete h (IsFolder q) s = s
   \<and> (\<forall>sn. snapshot (this_settings s) = Some sn \<and> tpath t \<noteq> []
            \<and> (\<exists>f \<in> set (files sn). path f = tpath t) \<longrightarrow>
        (\<exists>i<length (files sn).
            path (files sn ! i) = tpath t
          \<and> (\<forall>j<i. path (files sn ! j) \<noteq> tpath t)
          \<and> handleFileDelete h (IsFile t) s =
              s\<lparr>this_settings := (this_settings s)
                   \<lparr>snapshot := Some (sn\<lparr>files := (files sn)[i := (files sn ! i)\<lparr>status := Deleted\<rparr>]\<rparr>)\<rparr>,
                savedData := Some ((this_settings s)
                   \<lparr>snapshot := Some (sn\<lparr>files := (files sn)[i := (files sn ! i)\<lparr>status := Deleted\<rparr>]\<rparr>)\<rparr>)\<rparr>))
   \<and> ((\<forall>f \<in> set (snapshot_files s). path f \<noteq> tpath t) \<longrightarrow> handleFileDelete h (IsFile t) s = s)"
proof -
  have 1: "snapshot (this_settings s) = None \<longrightarrow> handleFileDelete h file s = s"
    by (cases "file") (simp_all add: handleFileDelete_def)
  have 2: "handleFileDelete h (IsFolder q) s = s"
    by (simp add: handleFileDelete_def)
  have 3: "\<exists>i<length (files sn).
            path (files sn ! i) = tpath t
          \<and> (\<forall>j<i. path (files sn ! j) \<noteq> tpath t)
          \<and> handleFileDelete h (IsFile t) s =
              s\<lparr>this_settings := (this_settings s)
                   \<lparr>snapshot := Some (sn\<lparr>files := (files sn)[i := (files sn ! i)\<lparr>status := Deleted\<rparr>]\<rparr>)\<rparr>,
                savedData := Some ((this_settings s)
                   \<lparr>snapshot := Some (sn\<lparr>files := (files sn)[i := (files sn ! i)\<lparr>status := Deleted\<rparr>]\<rparr>)\<rparr>)\<rparr>"
    if sn: "snapshot (this_settings s) = Some sn" and ne: "tpath t \<noteq> []"
      and ex: "\<exists>f \<in> set (files sn). path f = tpath t" for sn
  proof -
    from findIndex_first [of "files sn" "\<lambda>f. path f = tpath t"] ex
    obtain i where i: "findIndex (\<lambda>f. path f = tpath t) (files sn) = Some i" "i < length (files sn)"
      "path (files sn ! i) = tpath t" "\<forall>j<i. path (files sn ! j) \<noteq> tpath t"
      by blast
    have g: "getSnapshotFile h (Some (tpath t)) s = Some i"
      using ne i(1) sn by (simp add: getSnapshotFile_path snapshot_files_Some)
    have "handleFileDelete h (IsFile t) s =
            saveSettings (update_files (\<lambda>fs. fs[i := (fs ! i)\<lparr>status := Deleted\<rparr>]) s)"
      using sn g by (simp add: handleFileDelete_def)
    with saveSettings_update_files [OF sn] i show ?thesis
      by auto
  qed
  have 4: "(\<forall>f \<in> set (snapshot_files s). path f \<noteq> tpath t) \<longrightarrow> handleFileDelete h (IsFile t) s = s"
  proof
    assume "\<forall>f \<in> set (snapshot_files s). path f \<noteq> tpath t"
    then have "findIndex (\<lambda>f. path f = tpath t) (snapshot_files s) = None"
      by (simp add: findIndex_None_iff)
    then have "getSnapshotFile h (Some (tpath t)) s = None"
      by (simp add: getSnapshotFile_path)
    then show "handleFileDelete h (IsFile t) s = s"
      by (simp add: handleFileDelete_def split: option.splits)
  qed
  from 1 2 3 4 show ?thesis by blast
qed

text \<open>
  The record \<open>a.md\<close> to review is marked deleted and kept.
\<close>

theorem handleFileDelete_marks_witness:
  "snapshot_files
     (handleFileDelete host0 (IsFile \<lparr>tpath = ''a.md'', extension = ''md''\<rparr>)
        (withFiles [\<lparr>path = ''a.md'', status = ToReview\<rparr>])) =
   [\<lparr>path = ''a.md'', status = Deleted\<rparr>]"
proof -
  let ?t = "\<lparr>tpath = ''a.md'', extension = ''md''\<rparr>"
  let ?s = "withFiles [\<lparr>path = ''a.md'', status = ToReview\<rparr>]"
  let ?sn = "\<lparr>files = [\<lparr>path = ''a.md'', status = ToReview\<rparr>], createdAt = 0\<rparr>"
  have sn: "snapshot (this_settings ?s) = Some ?sn"
    by (simp add: withFiles_def)
  have hyp: "snapshot (this_settings ?s) = Some ?sn \<and> tpath ?t \<noteq> []
      \<and> (\<exists>f \<in> set (files ?sn). path f = tpath ?t)"
    using sn by simp
  from handleFileDelete_marks [of ?s host0 "IsFile ?t" "''x''" ?t] hyp
  obtain i where i: "i < length (files ?sn)"
    "handleFileDelete host0 (IsFile ?t) ?s =
       ?s\<lparr>this_settings := (this_settings ?s)
            \<lparr>snapshot := Some (?sn\<lparr>files := (files ?sn)[i := (files ?sn ! i)\<lparr>status := Deleted\<rparr>]\<rparr>)\<rparr>,
          savedData := Some ((this_settings ?s)
            \<lparr>snapshot := Some (?sn\<lparr>files := (files ?sn)[i := (files ?sn ! i)\<lparr>status := Deleted\<rparr>]\<rparr>)\<rparr>)\<rparr>"
    by blast
  from i(1) have "i = 0" by simp
  with i(2) show ?thesis
    by (simp add: snapshot_files_def)
qed

text \<open>
  The empty path is falsy for the guard \<^verbatim>\<open>if (!path) return\<close> of \<open>getSnapshotFile\<close>: a
  record whose path is the empty string is not found, and a delete notification for that
  path leaves its status \<open>to_review\<close>.
\<close>

theorem handleFileDelete_empty_path_counterexample:
  "handleFileDelete host0 (IsFile \<lparr>tpath = '''', extension = ''md''\<rparr>)
     (withFiles [\<lparr>path = '''', status = ToReview\<rparr>]) =
   withFiles [\<lparr>path = '''', status = ToReview\<rparr>]"
  by (simp add: handleFileDelete_def getSnapshotFile_def withFiles_def)

section \<open>Rename reconciliation\<close>

text \<open>
  Claim C2, amended. Take a snapshot whose record paths are pairwise distinct and a rename
  notification for a file, from a non-empty \<open>oldPath\<close> to a \<open>newPath\<close> that no record of
  the snapshot has (so \<open>newPath\<close> differs from \<open>oldPath\<close> when \<open>oldPath\<close> has a record).
  If a record with path \<open>oldPath\<close> exists, then after the reconciliation that record, at
  its position, has the path \<open>newPath\<close> and its old status, every other record is as
  before, the ledger is saved, no record with path \<open>oldPath\<close> remains and the record paths
  are still pairwise distinct. If no record has path \<open>oldPath\<close>, the plugin is unchanged;
  so it is for a notification about a folder.
\<close>

theorem handleFileRename_rewrites:
  "(\<forall>sn. snapshot (this_settings s) = Some sn
          \<and> distinct (map path (files sn))
          \<and> oldPath \<noteq> []
          \<and> (\<forall>f \<in> set (files sn). path f \<noteq> tpath t)
          \<and> (\<exists>f \<in> set (files sn). path f = oldPath) \<longrightarrow>
        (\<exists>i<length (files sn).
            path (files sn ! i) = oldPath
          \<and> handleFileRename h (IsFile t) oldPath s =
              s\<lparr>this_settings := (this_settings s)
                   \<lparr>snapshot := Some (sn\<lparr>files := (files sn)[i := (files sn ! i)\<lparr>path := tpath t\<rparr>]\<rparr>)\<rparr>,
                savedData := Some ((this_settings s)
                   \<lparr>snapshot := Some (sn\<lparr>files := (files sn)[i := (files sn ! i)\<lparr>path := tpath t\<rparr>]\<rparr>)\<rparr>)\<rparr>
          \<and> path (snapshot_files (handleFileRename h (IsFile t) oldPath s) ! i) = tpath t
          \<and> status (snapshot_files (handleFileRename h (IsFile t) oldPath s) ! i) =
              status (files sn ! i)
          \<and> (\<forall>f \<in> set (snapshot_files (handleFileRename h (IsFile t) oldPath s)).
                path f \<noteq> oldPath)
          \<and> distinct (map path (snapshot_files (handleFileRename h (IsFile t) oldPath s)))))
   \<and> ((\<forall>f \<in> set (snapshot_files s). path f \<noteq> oldPath) \<longrightarrow>
        handleFileRename h (IsFile t) oldPath s = s)
   \<and> handleFileRename h (IsFolder q) oldPath s = s"
proof -
  have 1: "handleFileRename h (IsFolder q) oldPath s = s"
    by (simp add: handleFileRename_def)
  have 2: "\<exists>i<length (files sn).
            path (files sn ! i) = oldPath
          \<and> handleFileRename h (IsFile t) oldPath s =
              s\<lparr>this_settings := (this_settings s)
                   \<lparr>snapshot := Some (sn\<lparr>files := (files sn)[i := (files sn ! i)\<lparr>path := tpath t\<rparr>]\<rparr>)\<rparr>,
                savedData := Some ((this_settings s)
                   \<lparr>snapshot := Some (sn\<lparr>files := (files sn)[i := (files sn ! i)\<lparr>path := tpath t\<rparr>]\<rparr>)\<rparr>)\<rparr>
          \<and> path (snapshot_files (handleFileRename h (IsFile t) oldPath s) ! i) = tpath t
          \<and> status (snapshot_files (handleFileRename h (IsFile t) oldPath s) ! i) =
              status (files sn ! i)
          \<and> (\<forall>f \<in> set (snapshot_files (handleFileRename h (IsFile t) oldPath s)).
                path f \<noteq> oldPath)
          \<and> distinct (map path (snapshot_files (handleFileRename h (IsFile t) oldPath s)))"
    if sn: "snapshot (this_settings s) = Some sn" and d: "distinct (map path (files sn))"
      and ne: "oldPath \<noteq> []" and fresh: "\<forall>f \<in> set (files sn). path f \<noteq> tpath t"
      and ex: "\<exists>f \<in> set (files sn). path f = oldPath" for sn
  proof -
    from findIndex_first [of "files sn" "\<lambda>f. path f = oldPath"] ex
    obtain i where i: "findIndex (\<lambda>f. path f = oldPath) (files sn) = Some i" "i < length (files sn)"
      "path (files sn ! i) = oldPath"
      by blast
    let ?fs = "(files sn)[i := (files sn ! i)\<lparr>path := tpath t\<rparr>]"
    have g: "getSnapshotFile h (Some oldPath) s = Some i"
      using ne i(1) sn by (simp add: getSnapshotFile_path snapshot_files_Some)
    have "handleFileRename h (IsFile t) oldPath s =
            saveSettings (update_files (\<lambda>fs. fs[i := (fs ! i)\<lparr>path := tpath t\<rparr>]) s)"
      using g by (simp add: handleFileRename_def)
    with saveSettings_update_files [OF sn]
    have r: "handleFileRename h (IsFile t) oldPath s =
              s\<lparr>this_settings := (this_settings s)\<lparr>snapshot := Some (sn\<lparr>files := ?fs\<rparr>)\<rparr>,
                savedData := Some ((this_settings s)\<lparr>snapshot := Some (sn\<lparr>files := ?fs\<rparr>)\<rparr>)\<rparr>"
      by simp
    then have sf: "snapshot_files (handleFileRename h (IsFile t) oldPath s) = ?fs"
      by (simp add: snapshot_files_def)
    have p: "path (?fs ! i) = tpath t" "status (?fs ! i) = status (files sn ! i)"
      using i(2) by simp_all
    from ex fresh have "tpath t \<noteq> oldPath"
      by auto
    with renamed_path_gone [OF d i(2,3)] have gone: "\<forall>f \<in> set ?fs. path f \<noteq> oldPath"
      by blast
    have dist: "distinct (map path ?fs)"
      using d i(2) fresh by (rule renamed_paths_distinct)
    from i(2,3) r sf p gone dist show ?thesis
      by (intro exI [of _ i]) simp
  qed
  have 3: "(\<forall>f \<in> set (snapshot_files s). path f \<noteq> oldPath) \<longrightarrow>
        handleFileRename h (IsFile t) oldPath s = s"
  proof
    assume "\<forall>f \<in> set (snapshot_files s). path f \<noteq> oldPath"
    then have "findIndex (\<lambda>f. path f = oldPath) (snapshot_files s) = None"
      by (simp add: findIndex_None_iff)
    then have "getSnapshotFile h (Some oldPath) s = None"
      by (simp add: getSnapshotFile_path)
    then show "handleFileRename h (IsFile t) oldPath s = s"
      by (simp add: handleFileRename_def)
  qed
  from 1 2 3 show ?thesis by blast
qed

text \<open>
  Property P6 of the specification: the reviewed record \<open>a.md\<close> becomes the reviewed
  record \<open>b.md\<close>.
\<close>

theorem handleFileRename_rewrites_witness:
  "snapshot_files
     (handleFileRename host0 (IsFile \<lparr>tpath = ''b.md'', extension = ''md''\<rparr>) ''a.md''
        (withFiles [\<lparr>path = ''a.md'', status = Reviewed\<rparr>])) =
   [\<lparr>path = ''b.md'', status = Reviewed\<rparr>]"
proof -
  let ?t = "\<lparr>tpath = ''b.md'', extension = ''md''\<rparr>"
  let ?s = "withFiles [\<lparr>path = ''a.md'', status = Reviewed\<rparr>]"
  let ?sn = "\<lparr>files = [\<lparr>path = ''a.md'', status = Reviewed\<rparr>], createdAt = 0\<rparr>"
  let ?r = "handleFileRename host0 (IsFile ?t) ''a.md'' ?s"
  have hyp: "snapshot (this_settings ?s) = Some ?sn
      \<and> distinct (map path (files ?sn))
      \<and> ''a.md'' \<noteq> []
      \<and> (\<forall>f \<in> set (files ?sn). path f \<noteq> tpath ?t)
      \<and> (\<exists>f \<in> set (files ?sn). path f = ''a.md'')"
    by (simp add: withFiles_def)
  from handleFileRename_rewrites [of ?s "''a.md''" ?t host0 "''x''"] hyp
  obtain i where i: "i < length (files ?sn)"
    "?r = ?s\<lparr>this_settings := (this_settings ?s)
            \<lparr>snapshot := Some (?sn\<lparr>files := (files ?sn)[i := (files ?sn ! i)\<lparr>path := tpath ?t\<rparr>]\<rparr>)\<rparr>,
          savedData := Some ((this_settings ?s)
            \<lparr>snapshot := Some (?sn\<lparr>files := (files ?sn)[i := (files ?sn ! i)\<lparr>path := tpath ?t\<rparr>]\<rparr>)\<rparr>)\<rparr>"
    by blast
  from i(1) have "i = 0" by simp
  with i(2) show ?thesis
    by (simp add: snapshot_files_def)
qed

text \<open>
  Where the claim as stated fails. First: a record \<open>b.md\<close> marked deleted stays in the
  ledger, the file \<open>a.md\<close> is renamed to \<open>b.md\<close> and then to \<open>c.md\<close>; the second
  notification rewrites the first of the two records with path \<open>b.md\<close> and a record with
  the old path \<open>b.md\<close> remains. Second: a notification whose old and new path coincide
  leaves the record under the old path. Third: a record whose path is the empty string is
  not found, so its path is not rewritten.
\<close>

theorem handleFileRename_counterexample:
  "snapshot_files
     (handleFileRename host0 (IsFile \<lparr>tpath = ''c.md'', extension = ''md''\<rparr>) ''b.md''
        (handleFileRename host0 (IsFile \<lparr>tpath = ''b.md'', extension = ''md''\<rparr>) ''a.md''
           (withFiles [\<lparr>path = ''a.md'', status = ToReview\<rparr>,
                       \<lparr>path = ''b.md'', status = Deleted\<rparr>]))) =
     [\<lparr>path = ''c.md'', status = ToReview\<rparr>, \<lparr>path = ''b.md'', status = Deleted\<rparr>]
   \<and> snapshot_files
       (handleFileRename host0 (IsFile \<lparr>tpath = ''a.md'', extension = ''md''\<rparr>) ''a.md''
          (withFiles [\<lparr>path = ''a.md'', status = Reviewed\<rparr>])) =
     [\<lparr>path = ''a.md'', status = Reviewed\<rparr>]
   \<and> snapshot_files
       (handleFileRename host0 (IsFile \<lparr>tpath = ''b.md'', extension = ''md''\<rparr>) ''''
          (withFiles [\<lparr>path = '''', status = Reviewed\<rparr>])) =
     [\<lparr>path = '''', status = Reviewed\<rparr>]"
  by (simp add: handleFileRename_def getSnapshotFile_def withFiles_def saveSettings_def
      update_files_def snapshot_files_def)

section \<open>Reviewing twice\<close>

text \<open>
  Claim C4, amended. With a snapshot present and a target path that is not the empty
  string, \<open>completeReview\<close> (without opening the next file) applied twice in a row leaves
  the plugin, and with it the ledger, the saved document and the notices, exactly as one
  application does: the second call finds the record, which is already reviewed.
\<close>

theorem completeReview_idempotent:
  assumes sn: "snapshot (this_settings s) \<noteq> None"
    and ne: "targetPath h file \<noteq> Some []"
  shows "completeReview h file False (completeReview h file False s) =
         completeReview h file False s"
proof (cases "targetPath h file")
  case None
  then show ?thesis
    by (simp add: completeReview_def)
next
  case (Some p)
  with ne have p: "p \<noteq> []"
    by simp
  from sn obtain sn0 where sn0: "snapshot (this_settings s) = Some sn0"
    by blast
  let ?P = "\<lambda>f. path f = p"
  show ?thesis
  proof (cases "findIndex ?P (files sn0)")
    case None
    let ?sn1 = "sn0\<lparr>files := files sn0 @ [toFile p Reviewed]\<rparr>"
    let ?r = "completeReview h file False s"
    from completeReview_absent [OF Some sn0] None
    have r: "?r = s\<lparr>this_settings := (this_settings s)\<lparr>snapshot := Some ?sn1\<rparr>,
       savedData := Some ((this_settings s)\<lparr>snapshot := Some ?sn1\<rparr>),
       notices := notices s @ [''File was added to snapshot and marked as reviewed'']\<rparr>"
      by simp
    then have sn1: "snapshot (this_settings ?r) = Some ?sn1"
      by simp
    from None have "\<forall>x \<in> set (files sn0). \<not> ?P x"
      by (simp add: findIndex_None_iff)
    then have "findIndex ?P (files sn0 @ [toFile p Reviewed]) = Some (length (files sn0))"
      by (rule findIndex_append_new) (simp add: toFile_def)
    then have i1: "findIndex ?P (files ?sn1) = Some (length (files sn0))"
      by simp
    have same: "(files ?sn1)[length (files sn0) := (files ?sn1 ! length (files sn0))\<lparr>status := Reviewed\<rparr>]
        = files ?sn1"
      by (simp add: toFile_def)
    from completeReview_found [OF Some p sn1 i1] same
    have "completeReview h file False ?r =
        ?r\<lparr>this_settings := (this_settings ?r)\<lparr>snapshot := Some ?sn1\<rparr>,
           savedData := Some ((this_settings ?r)\<lparr>snapshot := Some ?sn1\<rparr>)\<rparr>"
      by simp
    also have "\<dots> = ?r"
      by (subst (1 2 3 4) r) simp
    finally show ?thesis .
  next
    case (Some i)
    note i = Some
    let ?fs1 = "(files sn0)[i := (files sn0 ! i)\<lparr>status := Reviewed\<rparr>]"
    let ?sn1 = "sn0\<lparr>files := ?fs1\<rparr>"
    let ?r = "completeReview h file False s"
    from completeReview_found [OF \<open>targetPath h file = Some p\<close> p sn0 i]
    have r: "?r = s\<lparr>this_settings := (this_settings s)\<lparr>snapshot := Some ?sn1\<rparr>,
       savedData := Some ((this_settings s)\<lparr>snapshot := Some ?sn1\<rparr>)\<rparr>"
      by simp
    then have sn1: "snapshot (this_settings ?r) = Some ?sn1"
      by simp
    have i1: "findIndex ?P (files ?sn1) = Some i"
      using i by (simp add: findIndex_set_status)
    have il: "i < length (files sn0)"
      using i by (rule findIndex_Some_less)
    have same: "(files ?sn1)[i := (files ?sn1 ! i)\<lparr>status := Reviewed\<rparr>] = files ?sn1"
      using il by simp
    from completeReview_found [OF \<open>targetPath h file = Some p\<close> p sn1 i1] same
    have "completeReview h file False ?r =
        ?r\<lparr>this_settings := (this_settings ?r)\<lparr>snapshot := Some ?sn1\<rparr>,
           savedData := Some ((this_settings ?r)\<lparr>snapshot := Some ?sn1\<rparr>)\<rparr>"
      by simp
    also have "\<dots> = ?r"
      by (subst (1 2 3 4) r) simp
    finally show ?thesis .
  qed
qed

text \<open>
  Reviewing \<open>b.md\<close>, which has no record yet, once or twice: one reviewed record is
  appended and one notice is shown.
\<close>

theorem completeReview_idempotent_witness:
  "snapshot (this_settings (withFiles [\<lparr>path = ''a.md'', status = ToReview\<rparr>])) \<noteq> None
   \<and> targetPath host0 (Some \<lparr>path = ''b.md'', status = ToReview\<rparr>) \<noteq> Some []
   \<and> snapshot_files
       (completeReview host0 (Some \<lparr>path = ''b.md'', status = ToReview\<rparr>) False
          (completeReview host0 (Some \<lparr>path = ''b.md'', status = ToReview\<rparr>) False
             (withFiles [\<lparr>path = ''a.md'', status = ToReview\<rparr>]))) =
     [\<lparr>path = ''a.md'', status = ToReview\<rparr>, \<lparr>path = ''b.md'', status = Reviewed\<rparr>]"
proof -
  let ?s = "withFiles [\<lparr>path = ''a.md'', status = ToReview\<rparr>]"
  let ?f = "Some \<lparr>path = ''b.md'', status = ToReview\<rparr>"
  have a: "snapshot (this_settings ?s) \<noteq> None"
    by (simp add: withFiles_def)
  have b: "targetPath host0 ?f \<noteq> Some []"
    by (simp add: targetPath_def)
  have once: "snapshot_files (completeReview host0 ?f False ?s) =
      [\<lparr>path = ''a.md'', status = ToReview\<rparr>, \<lparr>path = ''b.md'', status = Reviewed\<rparr>]"
    by (simp add: completeReview_def targetPath_def getSnapshotFile_def withFiles_def
        update_files_def Notice_def saveSettings_def snapshot_files_def toFile_def)
  from completeReview_idempotent [OF a b] once a b show ?thesis
    by simp
qed

text \<open>
  For the empty path the lookup returns nothing each time, so each call appends a record:
  after one call the snapshot holds one record with the empty path, after two calls two.
\<close>

theorem completeReview_empty_path_counterexample:
  "snapshot_files
     (completeReview host0 (Some \<lparr>path = '''', status = ToReview\<rparr>) False (withFiles [])) =
     [\<lparr>path = '''', status = Reviewed\<rparr>]
   \<and> snapshot_files
       (completeReview host0 (Some \<lparr>path = '''', status = ToReview\<rparr>) False
          (completeReview host0 (Some \<lparr>path = '''', status = ToReview\<rparr>) False (withFiles []))) =
     [\<lparr>path = '''', status = Reviewed\<rparr>, \<lparr>path = '''', status = Reviewed\<rparr>]"
  by (simp add: completeReview_def targetPath_def getSnapshotFile_def withFiles_def
      update_files_def Notice_def saveSettings_def snapshot_files_def toFile_def)

section \<open>The status resolver\<close>

text \<open>
  Claim C7, amended. \<open>getActiveFileStatus\<close> never changes the plugin. With a snapshot and
  an active Markdown file whose path \<open>p\<close> is not the empty string, it returns the stored
  status of the first record whose path equals \<open>p\<close>, which is the only such record when
  the record paths are pairwise distinct, and it returns \<open>new\<close> when no record has
  path \<open>p\<close>.
\<close>

theorem getActiveFileStatus_resolves:
  "snd (getActiveFileStatus h s) = s
   \<and> (workspace_activeFile h = Some t \<and> extension t = ''md'' \<and> tpath t \<noteq> []
        \<and> snapshot (this_settings s) = Some sn \<longrightarrow>
        fst (getActiveFileStatus h s) =
          Some (case List.find (\<lambda>f. path f = tpath t) (files sn) of
                  None \<Rightarrow> New | Some f \<Rightarrow> Stored (status f))
      \<and> ((\<forall>f \<in> set (files sn). path f \<noteq> tpath t) \<longrightarrow>
            fst (getActiveFileStatus h s) = Some New)
      \<and> ((\<exists>f \<in> set (files sn). path f = tpath t) \<longrightarrow>
            (\<exists>i<length (files sn).
                path (files sn ! i) = tpath t
              \<and> (\<forall>j<i. path (files sn ! j) \<noteq> tpath t)
              \<and> fst (getActiveFileStatus h s) = Some (Stored (status (files sn ! i)))))
      \<and> (distinct (map path (files sn)) \<longrightarrow>
            (\<forall>f \<in> set (files sn). path f = tpath t \<longrightarrow>
               fst (getActiveFileStatus h s) = Some (Stored (status f)))))"
proof -
  have frame: "snd (getActiveFileStatus h s) = s"
    by (simp add: getActiveFileStatus_def split: option.splits)
  have main: "fst (getActiveFileStatus h s) =
          Some (case List.find (\<lambda>f. path f = tpath t) (files sn) of
                  None \<Rightarrow> New | Some f \<Rightarrow> Stored (status f))
      \<and> ((\<forall>f \<in> set (files sn). path f \<noteq> tpath t) \<longrightarrow>
            fst (getActiveFileStatus h s) = Some New)
      \<and> ((\<exists>f \<in> set (files sn). path f = tpath t) \<longrightarrow>
            (\<exists>i<length (files sn).
                path (files sn ! i) = tpath t
              \<and> (\<forall>j<i. path (files sn ! j) \<noteq> tpath t)
              \<and> fst (getActiveFileStatus h s) = Some (Stored (status (files sn ! i)))))
      \<and> (distinct (map path (files sn)) \<longrightarrow>
            (\<forall>f \<in> set (files sn). path f = tpath t \<longrightarrow>
               fst (getActiveFileStatus h s) = Some (Stored (status f))))"
    if a: "workspace_activeFile h = Some t" and e: "extension t = ''md''"
      and ne: "tpath t \<noteq> []" and sn: "snapshot (this_settings s) = Some sn"
  proof -
    let ?P = "\<lambda>f. path f = tpath t"
    have act: "getActiveFile h = Some t"
      using a e by (simp add: getActiveFile_def)
    have g: "getSnapshotFile h (Some (tpath t)) s = findIndex ?P (files sn)"
      using ne sn by (simp add: getSnapshotFile_path snapshot_files_Some)
    have r: "fst (getActiveFileStatus h s) =
        (case findIndex ?P (files sn) of
           None \<Rightarrow> Some New | Some i \<Rightarrow> Some (Stored (status (files sn ! i))))"
      using act g sn by (simp add: getActiveFileStatus_def snapshot_files_Some split: option.splits)
    have 1: "fst (getActiveFileStatus h s) =
          Some (case List.find ?P (files sn) of None \<Rightarrow> New | Some f \<Rightarrow> Stored (status f))"
      using r by (simp add: findIndex_find [symmetric] split: option.splits)
    have 2: "(\<forall>f \<in> set (files sn). path f \<noteq> tpath t) \<longrightarrow>
            fst (getActiveFileStatus h s) = Some New"
      using r by (simp add: findIndex_None_iff [symmetric])
    have 3: "\<exists>i<length (files sn).
                path (files sn ! i) = tpath t
              \<and> (\<forall>j<i. path (files sn ! j) \<noteq> tpath t)
              \<and> fst (getActiveFileStatus h s) = Some (Stored (status (files sn ! i)))"
      and 4: "distinct (map path (files sn)) \<longrightarrow>
            (\<forall>f \<in> set (files sn). path f = tpath t \<longrightarrow>
               fst (getActiveFileStatus h s) = Some (Stored (status f)))"
      if ex: "\<exists>f \<in> set (files sn). path f = tpath t"
    proof -
      from findIndex_first [of "files sn" ?P] ex
      obtain i where i: "findIndex ?P (files sn) = Some i" "i < length (files sn)"
        "path (files sn ! i) = tpath t" "\<forall>j<i. path (files sn ! j) \<noteq> tpath t"
        by blast
      from r i(1) have ri: "fst (getActiveFileStatus h s) = Some (Stored (status (files sn ! i)))"
        by simp
      with i show "\<exists>i<length (files sn).
                path (files sn ! i) = tpath t
              \<and> (\<forall>j<i. path (files sn ! j) \<noteq> tpath t)
              \<and> fst (getActiveFileStatus h s) = Some (Stored (status (files sn ! i)))"
        by blast
      show "distinct (map path (files sn)) \<longrightarrow>
            (\<forall>f \<in> set (files sn). path f = tpath t \<longrightarrow>
               fst (getActiveFileStatus h s) = Some (Stored (status f)))"
      proof (intro impI ballI)
        fix f
        assume "distinct (map path (files sn))" "f \<in> set (files sn)" "path f = tpath t"
        with unique_path_index [of "files sn" i f] i(2,3) have "f = files sn ! i"
          by simp
        with ri show "fst (getActiveFileStatus h s) = Some (Stored (status f))"
          by simp
      qed
    qed
    have d4: "distinct (map path (files sn)) \<longrightarrow>
            (\<forall>f \<in> set (files sn). path f = tpath t \<longrightarrow>
               fst (getActiveFileStatus h s) = Some (Stored (status f)))"
      using 4 by blast
    from 1 2 3 d4 show ?thesis
      by blast
  qed
  from frame main show ?thesis
    by blast
qed

text \<open>
  The active file \<open>a.md\<close> of the concrete host is reviewed in the ledger; \<open>b.md\<close> is not
  the active file.
\<close>

theorem getActiveFileStatus_resolves_witness:
  "fst (getActiveFileStatus host0
          (withFiles [\<lparr>path = ''b.md'', status = ToReview\<rparr>, \<lparr>path = ''a.md'', status = Reviewed\<rparr>])) =
     Some (Stored Reviewed)
   \<and> snd (getActiveFileStatus host0
          (withFiles [\<lparr>path = ''b.md'', status = ToReview\<rparr>, \<lparr>path = ''a.md'', status = Reviewed\<rparr>])) =
     withFiles [\<lparr>path = ''b.md'', status = ToReview\<rparr>, \<lparr>path = ''a.md'', status = Reviewed\<rparr>]"
proof -
  let ?fs = "[\<lparr>path = ''b.md'', status = ToReview\<rparr>, \<lparr>path = ''a.md'', status = Reviewed\<rparr>]"
  let ?t = "\<lparr>tpath = ''a.md'', extension = ''md''\<rparr>"
  let ?sn = "\<lparr>files = ?fs, createdAt = 0\<rparr>"
  have hyp: "workspace_activeFile host0 = Some ?t \<and> extension ?t = ''md'' \<and> tpath ?t \<noteq> []
        \<and> snapshot (this_settings (withFiles ?fs)) = Some ?sn"
    by (simp add: host0_def withFiles_def)
  have d: "distinct (map path (files ?sn))"
    by simp
  have m: "\<lparr>path = ''a.md'', status = Reviewed\<rparr> \<in> set (files ?sn)"
    by simp
  from getActiveFileStatus_resolves [of host0 "withFiles ?fs" ?t ?sn] hyp
  have "snd (getActiveFileStatus host0 (withFiles ?fs)) = withFiles ?fs"
    and "distinct (map path (files ?sn)) \<longrightarrow>
            (\<forall>f \<in> set (files ?sn). path f = tpath ?t \<longrightarrow>
               fst (getActiveFileStatus host0 (withFiles ?fs)) = Some (Stored (status f)))"
    by blast+
  with d m show ?thesis
    by simp
qed

text \<open>
  An active file whose path is the empty string resolves to \<open>new\<close> although the snapshot
  holds a reviewed record with exactly that path.
\<close>

theorem getActiveFileStatus_empty_path_counterexample:
  "fst (getActiveFileStatus
          (host0\<lparr>workspace_activeFile := Some \<lparr>tpath = '''', extension = ''md''\<rparr>\<rparr>)
          (withFiles [\<lparr>path = '''', status = Reviewed\<rparr>])) = Some New"
  by (simp add: getActiveFileStatus_def getActiveFile_def getSnapshotFile_def host0_def)

section \<open>Adding new files to the snapshot\<close>

text \<open>
  Claim C5. With a snapshot present the settings tab offers "Add all new files to
  snapshot". Its handler keeps the existing records as they are, in their order, and
  appends one record per Markdown file of the vault whose path has no record: the paths of
  the appended records are exactly the input paths without a record, and each appended
  record has the status \<open>to_review\<close>. The creation time and the settings are untouched and
  the ledger is saved. Running the handler a second time on the same vault changes nothing.
\<close>

theorem onClick_addAllNewFiles_additive:
  assumes sn: "snapshot (this_settings s) = Some sn"
  shows "AddAllNewFiles_button \<in> set (display s)
     \<and> (\<exists>added.
           this_settings (onClick_addAllNewFiles h s) =
             (this_settings s)\<lparr>snapshot := Some (sn\<lparr>files := files sn @ added\<rparr>)\<rparr>
         \<and> savedData (onClick_addAllNewFiles h s) = Some (this_settings (onClick_addAllNewFiles h s))
         \<and> path ` set added = tpath ` set (vault_markdownFiles h) - path ` set (files sn)
         \<and> (\<forall>f \<in> set added. status f = ToReview))
     \<and> take (length (files sn)) (snapshot_files (onClick_addAllNewFiles h s)) = files sn
     \<and> onClick_addAllNewFiles h (onClick_addAllNewFiles h s) = onClick_addAllNewFiles h s"
proof -
  let ?added = "map (\<lambda>file. toFile (tpath file) ToReview)
      (filter (\<lambda>file. tpath file \<notin> path ` set (files sn)) (vault_markdownFiles h))"
  let ?sn1 = "sn\<lparr>files := files sn @ ?added\<rparr>"
  let ?r = "onClick_addAllNewFiles h s"
  have r: "?r = s\<lparr>this_settings := (this_settings s)\<lparr>snapshot := Some ?sn1\<rparr>,
       savedData := Some ((this_settings s)\<lparr>snapshot := Some ?sn1\<rparr>)\<rparr>"
    using onClick_addAllNewFiles_Some [OF sn] .
  have 1: "AddAllNewFiles_button \<in> set (display s)"
    using sn by (simp add: display_def)
  have a1: "this_settings ?r = (this_settings s)\<lparr>snapshot := Some (sn\<lparr>files := files sn @ ?added\<rparr>)\<rparr>"
    by (subst r) simp
  have a2: "savedData ?r = Some (this_settings ?r)"
    by (subst (1 2) r) simp
  have a3: "path ` set ?added = tpath ` set (vault_markdownFiles h) - path ` set (files sn)"
    by (auto simp: toFile_def image_iff)
  have a4: "\<forall>f \<in> set ?added. status f = ToReview"
    by (auto simp: toFile_def)
  from a1 a2 a3 a4 have 2: "\<exists>added.
           this_settings ?r = (this_settings s)\<lparr>snapshot := Some (sn\<lparr>files := files sn @ added\<rparr>)\<rparr>
         \<and> savedData ?r = Some (this_settings ?r)
         \<and> path ` set added = tpath ` set (vault_markdownFiles h) - path ` set (files sn)
         \<and> (\<forall>f \<in> set added. status f = ToReview)"
    by blast
  have 3: "take (length (files sn)) (snapshot_files ?r) = files sn"
    using a1 by (simp add: snapshot_files_def)
  have sn1: "snapshot (this_settings ?r) = Some ?sn1"
    using a1 by simp
  have none: "filter (\<lambda>file. tpath file \<notin> path ` set (files ?sn1)) (vault_markdownFiles h) = []"
    using no_new_files_left [of "files sn" "vault_markdownFiles h"] by simp
  have "onClick_addAllNewFiles h ?r =
      ?r\<lparr>this_settings := (this_settings ?r)\<lparr>snapshot := Some ?sn1\<rparr>,
         savedData := Some ((this_settings ?r)\<lparr>snapshot := Some ?sn1\<rparr>)\<rparr>"
    using onClick_addAllNewFiles_Some [OF sn1, of h] none by simp
  also have "\<dots> = ?r"
    by (subst (1 2 3 4) r) simp
  finally have 4: "onClick_addAllNewFiles h ?r = ?r" .
  from 1 2 3 4 show ?thesis
    by blast
qed

text \<open>
  The vault holds \<open>a.md\<close> and \<open>b.md\<close>, the snapshot a reviewed record for \<open>a.md\<close>: the
  handler appends \<open>b.md\<close> to review.
\<close>

theorem onClick_addAllNewFiles_additive_witness:
  "snapshot_files (onClick_addAllNewFiles host0 (withFiles [\<lparr>path = ''a.md'', status = Reviewed\<rparr>])) =
     [\<lparr>path = ''a.md'', status = Reviewed\<rparr>, \<lparr>path = ''b.md'', status = ToReview\<rparr>]
   \<and> onClick_addAllNewFiles host0
       (onClick_addAllNewFiles host0 (withFiles [\<lparr>path = ''a.md'', status = Reviewed\<rparr>])) =
     onClick_addAllNewFiles host0 (withFiles [\<lparr>path = ''a.md'', status = Reviewed\<rparr>])"
proof -
  let ?s = "withFiles [\<lparr>path = ''a.md'', status = Reviewed\<rparr>]"
  have sn: "snapshot (this_settings ?s) =
      Some \<lparr>files = [\<lparr>path = ''a.md'', status = Reviewed\<rparr>], createdAt = 0\<rparr>"
    by (simp add: withFiles_def)
  have once: "snapshot_files (onClick_addAllNewFiles host0 ?s) =
     [\<lparr>path = ''a.md'', status = Reviewed\<rparr>, \<lparr>path = ''b.md'', status = ToReview\<rparr>]"
    by (simp add: onClick_addAllNewFiles_def Let_def withFiles_def host0_def update_files_def
        saveSettings_def snapshot_files_def toFile_def)
  from onClick_addAllNewFiles_additive [OF sn, of host0] once show ?thesis
    by simp
qed

section \<open>Picking a random file\<close>

text \<open>
  Claim C6. The record that \<open>openRandomFile\<close> picks and hands to \<open>focusFile\<close> is a record
  of the snapshot whose status is \<open>to_review\<close> at the time of the call. When the snapshot
  has no record to review, nothing is picked: the only effect is the notice "All files are
  reviewed". When there is a record to review, a record is picked.
\<close>

theorem openRandomFile_picks_to_review:
  "(randomFile h s = Some f \<longrightarrow>
      status f = ToReview \<and> f \<in> set (snapshot_files s)
    \<and> openRandomFile h s = focusFile h f False s)
   \<and> (snapshot (this_settings s) \<noteq> None \<and> getToReviewFiles s = [] \<longrightarrow>
        randomFile h s = None \<and> openRandomFile h s = Notice ''All files are reviewed'' s)
   \<and> (getToReviewFiles s \<noteq> [] \<longrightarrow> (\<exists>g. randomFile h s = Some g))"
proof -
  have 1: "status f = ToReview \<and> f \<in> set (snapshot_files s)
      \<and> openRandomFile h s = focusFile h f False s" if r: "randomFile h s = Some f"
  proof -
    let ?fs = "getToReviewFiles s"
    from r obtain sn where sn: "snapshot (this_settings s) = Some sn"
      by (cases "snapshot (this_settings s)") (simp_all add: randomFile_def)
    from r sn have ne: "length ?fs \<noteq> 0"
      and f: "f = ?fs ! (randomDraw h (length ?fs) mod length ?fs)"
      by (simp_all add: randomFile_def Let_def split: if_splits)
    from ne have "randomDraw h (length ?fs) mod length ?fs < length ?fs"
      by simp
    with f have "f \<in> set ?fs"
      by simp
    then have "status f = ToReview \<and> f \<in> set (snapshot_files s)"
      by (rule getToReviewFiles_status)
    moreover have "openRandomFile h s = focusFile h f False s"
      using sn ne f by (simp add: openRandomFile_def Let_def)
    ultimately show ?thesis
      by blast
  qed
  have 2: "randomFile h s = None \<and> openRandomFile h s = Notice ''All files are reviewed'' s"
    if "snapshot (this_settings s) \<noteq> None" "getToReviewFiles s = []"
    using that by (auto simp: randomFile_def openRandomFile_def)
  have 3: "\<exists>g. randomFile h s = Some g" if ne: "getToReviewFiles s \<noteq> []"
  proof (cases "snapshot (this_settings s)")
    case None
    then have "getToReviewFiles s = []"
      by (simp add: getToReviewFiles_def snapshot_files_def)
    with ne show ?thesis
      by simp
  next
    case (Some sn)
    with ne show ?thesis
      by (simp add: randomFile_def Let_def)
  qed
  from 1 2 3 show ?thesis
    by blast
qed

text \<open>
  The scenario of the specification: with \<open>x.md\<close> reviewed and \<open>y.md\<close> to review the pick
  is \<open>y.md\<close>; once \<open>y.md\<close> is marked deleted nothing is picked.
\<close>

theorem openRandomFile_picks_to_review_witness:
  "randomFile host0 (withFiles [\<lparr>path = ''x.md'', status = Reviewed\<rparr>,
                                \<lparr>path = ''y.md'', status = ToReview\<rparr>]) =
     Some \<lparr>path = ''y.md'', status = ToReview\<rparr>
   \<and> status \<lparr>path = ''y.md'', status = ToReview\<rparr> = ToReview
   \<and> randomFile host0 (withFiles [\<lparr>path = ''x.md'', status = Reviewed\<rparr>,
                                  \<lparr>path = ''y.md'', status = Deleted\<rparr>]) = None
   \<and> notices (openRandomFile host0 (withFiles [\<lparr>path = ''x.md'', status = Reviewed\<rparr>,
                                               \<lparr>path = ''y.md'', status = Deleted\<rparr>])) =
     [''All files are reviewed'']"
proof -
  let ?s1 = "withFiles [\<lparr>path = ''x.md'', status = Reviewed\<rparr>, \<lparr>path = ''y.md'', status = ToReview\<rparr>]"
  let ?s2 = "withFiles [\<lparr>path = ''x.md'', status = Reviewed\<rparr>, \<lparr>path = ''y.md'', status = Deleted\<rparr>]"
  let ?y = "\<lparr>path = ''y.md'', status = ToReview\<rparr>"
  have p: "randomFile host0 ?s1 = Some ?y"
    by (simp add: randomFile_def getToReviewFiles_def snapshot_files_def withFiles_def host0_def)
  have e: "snapshot (this_settings ?s2) \<noteq> None \<and> getToReviewFiles ?s2 = []"
    by (simp add: getToReviewFiles_def snapshot_files_def withFiles_def)
  have n: "notices ?s2 = []"
    by (simp add: withFiles_def)
  from openRandomFile_picks_to_review [of host0 ?s1 ?y] p
  have a: "status ?y = ToReview"
    by blast
  from openRandomFile_picks_to_review [of host0 ?s2 ?y] e
  have b: "randomFile host0 ?s2 = None"
    and c: "openRandomFile host0 ?s2 = Notice ''All files are reviewed'' ?s2"
    by blast+
  from c n have "notices (openRandomFile host0 ?s2) = [''All files are reviewed'']"
    by (simp add: Notice_def)
  with p a b show ?thesis
    by blast
qed

section \<open>Eviction of a record whose file is gone\<close>

text \<open>
  Claim C8. \<open>focusFile\<close> asks the vault for the file at the record's path. When the vault
  has no such file and a snapshot exists, every record with that path leaves the snapshot
  and all other records stay, in their order; the notice "Cannot find a file ..." is shown
  and the ledger is saved. When the vault has the file, it is opened and the ledger, the
  saved document and the notices are as before.
\<close>

theorem focusFile_evicts:
  "(vault_fileByPath h (path file) = None \<and> snapshot (this_settings s) = Some sn \<longrightarrow>
      focusFile h file newLeaf s =
        s\<lparr>this_settings := (this_settings s)
             \<lparr>snapshot := Some (sn\<lparr>files := filter (\<lambda>fp. path fp \<noteq> path file) (files sn)\<rparr>)\<rparr>,
          savedData := Some ((this_settings s)
             \<lparr>snapshot := Some (sn\<lparr>files := filter (\<lambda>fp. path fp \<noteq> path file) (files sn)\<rparr>)\<rparr>),
          notices := notices s @ [''Cannot find a file '' @ path file]\<rparr>
    \<and> set (snapshot_files (focusFile h file newLeaf s)) =
        {fp \<in> set (files sn). path fp \<noteq> path file}
    \<and> savedData (focusFile h file newLeaf s) = Some (this_settings (focusFile h file newLeaf s)))
   \<and> (vault_fileByPath h (path file) = Some t \<longrightarrow>
        focusFile h file newLeaf s = s\<lparr>openedFiles := openedFiles s @ [tpath t]\<rparr>
      \<and> this_settings (focusFile h file newLeaf s) = this_settings s)"
proof -
  have 1: "focusFile h file newLeaf s =
        s\<lparr>this_settings := (this_settings s)
             \<lparr>snapshot := Some (sn\<lparr>files := filter (\<lambda>fp. path fp \<noteq> path file) (files sn)\<rparr>)\<rparr>,
          savedData := Some ((this_settings s)
             \<lparr>snapshot := Some (sn\<lparr>files := filter (\<lambda>fp. path fp \<noteq> path file) (files sn)\<rparr>)\<rparr>),
          notices := notices s @ [''Cannot find a file '' @ path file]\<rparr>
    \<and> set (snapshot_files (focusFile h file newLeaf s)) =
        {fp \<in> set (files sn). path fp \<noteq> path file}
    \<and> savedData (focusFile h file newLeaf s) = Some (this_settings (focusFile h file newLeaf s))"
    if v: "vault_fileByPath h (path file) = None" and sn: "snapshot (this_settings s) = Some sn"
  proof -
    have r: "focusFile h file newLeaf s =
        s\<lparr>this_settings := (this_settings s)
             \<lparr>snapshot := Some (sn\<lparr>files := filter (\<lambda>fp. path fp \<noteq> path file) (files sn)\<rparr>)\<rparr>,
          savedData := Some ((this_settings s)
             \<lparr>snapshot := Some (sn\<lparr>files := filter (\<lambda>fp. path fp \<noteq> path file) (files sn)\<rparr>)\<rparr>),
          notices := notices s @ [''Cannot find a file '' @ path file]\<rparr>"
      using v sn
      by (simp add: focusFile_def Let_def Notice_def update_files_def saveSettings_def)
    have "set (snapshot_files (focusFile h file newLeaf s)) =
        {fp \<in> set (files sn). path fp \<noteq> path file}"
      by (subst r) (simp add: snapshot_files_def)
    moreover have "savedData (focusFile h file newLeaf s) =
        Some (this_settings (focusFile h file newLeaf s))"
      by (subst (1 2) r) simp
    ultimately show ?thesis
      using r by blast
  qed
  have 2: "focusFile h file newLeaf s = s\<lparr>openedFiles := openedFiles s @ [tpath t]\<rparr>
      \<and> this_settings (focusFile h file newLeaf s) = this_settings s"
    if "vault_fileByPath h (path file) = Some t"
    using that by (simp add: focusFile_def)
  from 1 2 show ?thesis
    by blast
qed

text \<open>
  The vault of the concrete host has no file \<open>gone.md\<close>: its record is evicted and the
  record of \<open>a.md\<close> stays.
\<close>

theorem focusFile_evicts_witness:
  "snapshot_files
     (focusFile host0 \<lparr>path = ''gone.md'', status = ToReview\<rparr> False
        (withFiles [\<lparr>path = ''gone.md'', status = ToReview\<rparr>,
                    \<lparr>path = ''a.md'', status = ToReview\<rparr>])) =
     [\<lparr>path = ''a.md'', status = ToReview\<rparr>]
   \<and> notices
       (focusFile host0 \<lparr>path = ''gone.md'', status = ToReview\<rparr> False
          (withFiles [\<lparr>path = ''gone.md'', status = ToReview\<rparr>,
                      \<lparr>path = ''a.md'', status = ToReview\<rparr>])) =
     [''Cannot find a file gone.md'']
   \<and> this_settings
       (focusFile host0 \<lparr>path = ''a.md'', status = ToReview\<rparr> False
          (withFiles [\<lparr>path = ''a.md'', status = ToReview\<rparr>])) =
     this_settings (withFiles [\<lparr>path = ''a.md'', status = ToReview\<rparr>])"
proof -
  let ?g = "\<lparr>path = ''gone.md'', status = ToReview\<rparr>"
  let ?a = "\<lparr>path = ''a.md'', status = ToReview\<rparr>"
  let ?sn = "\<lparr>files = [?g, ?a], createdAt = 0\<rparr>"
  have hyp: "vault_fileByPath host0 (path ?g) = None
      \<and> snapshot (this_settings (withFiles [?g, ?a])) = Some ?sn"
    by (simp add: host0_def withFiles_def)
  have hyp2: "vault_fileByPath host0 (path ?a) = Some \<lparr>tpath = ''a.md'', extension = ''md''\<rparr>"
    by (simp add: host0_def)
  from focusFile_evicts [of host0 ?g "withFiles [?g, ?a]" ?sn False] hyp
  have r: "focusFile host0 ?g False (withFiles [?g, ?a]) =
        (withFiles [?g, ?a])\<lparr>this_settings := (this_settings (withFiles [?g, ?a]))
             \<lparr>snapshot := Some (?sn\<lparr>files := filter (\<lambda>fp. path fp \<noteq> path ?g) (files ?sn)\<rparr>)\<rparr>,
          savedData := Some ((this_settings (withFiles [?g, ?a]))
             \<lparr>snapshot := Some (?sn\<lparr>files := filter (\<lambda>fp. path fp \<noteq> path ?g) (files ?sn)\<rparr>)\<rparr>),
          notices := notices (withFiles [?g, ?a]) @ [''Cannot find a file '' @ path ?g]\<rparr>"
    by blast
  from focusFile_evicts [of host0 ?a "withFiles [?a]" _ False] hyp2
  have k: "this_settings (focusFile host0 ?a False (withFiles [?a])) = this_settings (withFiles [?a])"
    by blast
  have 1: "snapshot_files (focusFile host0 ?g False (withFiles [?g, ?a])) = [?a]"
    by (subst r) (simp add: snapshot_files_def)
  have 2: "notices (focusFile host0 ?g False (withFiles [?g, ?a])) = [''Cannot find a file gone.md'']"
    by (subst r) (simp add: withFiles_def)
  from 1 2 k show ?thesis
    by blast
qed

section \<open>Creating a snapshot\<close>




section \<open>Uniqueness of record paths\<close>

text \<open>
  Claim C1. The claim asks that no sequence of ledger operations, started on a snapshot
  with pairwise distinct record paths, produces two records with the same path, and in
  particular that a rename onto a path that already has a record does not. The code does:
  the snapshot holds \<open>a.md\<close> and \<open>b.md\<close>, both to review, with distinct paths; the file
  \<open>b.md\<close> is deleted, which keeps its record with the status \<open>deleted\<close>; then \<open>a.md\<close> is
  renamed to \<open>b.md\<close>. \<open>handleFileRename\<close> overwrites the path of the first record
  without looking for a record at the new path, and the snapshot ends with two records
  whose path is \<open>b.md\<close>. The other writers of the record array look the path up before
  they add a record and keep the paths distinct (lemma \<open>other_writers_keep_paths_distinct\<close>).
\<close>

theorem handleFileRename_collision:
  "distinct (map path (snapshot_files
      (withFiles [\<lparr>path = ''a.md'', status = ToReview\<rparr>, \<lparr>path = ''b.md'', status = ToReview\<rparr>])))
   \<and> snapshot_files
       (handleFileRename host0 (IsFile \<lparr>tpath = ''b.md'', extension = ''md''\<rparr>) ''a.md''
          (handleFileDelete host0 (IsFile \<lparr>tpath = ''b.md'', extension = ''md''\<rparr>)
             (withFiles [\<lparr>path = ''a.md'', status = ToReview\<rparr>,
                         \<lparr>path = ''b.md'', status = ToReview\<rparr>]))) =
     [\<lparr>path = ''b.md'', status = ToReview\<rparr>, \<lparr>path = ''b.md'', status = Deleted\<rparr>]
   \<and> \<not> distinct (map path (snapshot_files
       (handleFileRename host0 (IsFile \<lparr>tpath = ''b.md'', extension = ''md''\<rparr>) ''a.md''
          (handleFileDelete host0 (IsFile \<lparr>tpath = ''b.md'', extension = ''md''\<rparr>)
             (withFiles [\<lparr>path = ''a.md'', status = ToReview\<rparr>,
                         \<lparr>path = ''b.md'', status = ToReview\<rparr>])))))"
  by (simp add: handleFileRename_def handleFileDelete_def getSnapshotFile_def withFiles_def
      saveSettings_def update_files_def snapshot_files_def)

end
